theory Spec2Isabelle
  imports Main "HOL-Library.AList" "HOL-Library.Char_ord" "HOL-Library.List_Lexorder"
    "HOL-Library.Sublist"
begin

section \<open>Environment of the driver: paths, errors and the file system\<close>

text \<open>
  The driver of \<^verbatim>\<open>main.go\<close> stores every record as a file
  \<^verbatim>\<open><dir>/<collection>/<resource>.json\<close>. Its functions are embedded below after a
  model of the library calls they make: \<^verbatim>\<open>path/filepath\<close> on Unix, the \<^verbatim>\<open>os\<close> file
  calls on a tree of directories and regular files, and \<^verbatim>\<open>encoding/json\<close> as a pair of
  functions passed as a parameter. Go strings are byte strings: \<^typ>\<open>string\<close>.
\<close>

subsection \<open>Errors\<close>

datatype errno = ENOENT | ENOTDIR | EISDIR | EACCES | EEXIST | ENOTEMPTY | EINVAL | EBUSY

text \<open>
  \<open>ErrorString\<close> is the value of \<^verbatim>\<open>errors.New\<close> and \<^verbatim>\<open>fmt.Errorf\<close>; \<open>PathError\<close> and
  \<open>LinkError\<close> are the errors of package \<^verbatim>\<open>os\<close> with their operation and error number
  (the path fields are left out); \<open>JsonError\<close> is any error of \<^verbatim>\<open>encoding/json\<close>.
\<close>

datatype error =
    ErrorString string
  | PathError string errno
  | LinkError string errno
  | JsonError string

fun IsNotExist :: "error \<Rightarrow> bool" where
  "IsNotExist (PathError op e) = (e = ENOENT)"
| "IsNotExist (LinkError op e) = (e = ENOENT)"
| "IsNotExist (ErrorString s) = False"
| "IsNotExist (JsonError s) = False"

subsection \<open>Package path/filepath\<close>

definition Separator :: char where
  "Separator = CHR ''/''"

fun split_path :: "string \<Rightarrow> string list" where
  "split_path [] = [[]]"
| "split_path (c # cs) =
     (if c = Separator then [] # split_path cs
      else (case split_path cs of [] \<Rightarrow> [[c]] | s # ss \<Rightarrow> (c # s) # ss))"

fun join_sep :: "string list \<Rightarrow> string" where
  "join_sep [] = []"
| "join_sep [s] = s"
| "join_sep (s # t # ss) = s @ Separator # join_sep (t # ss)"

definition rooted :: "string \<Rightarrow> bool" where
  "rooted p = (case p of [] \<Rightarrow> False | c # cs \<Rightarrow> c = Separator)"

text \<open>
  One element of the path in \<^verbatim>\<open>filepath.Clean\<close>: empty and \<^verbatim>\<open>.\<close> elements are dropped,
  \<^verbatim>\<open>..\<close> removes the element before it, is dropped at the root of a rooted path, and is
  kept at the front of a relative one.
\<close>

definition clean_step :: "bool \<Rightarrow> string list \<Rightarrow> string \<Rightarrow> string list" where
  "clean_step rt st seg =
     (if seg = [] \<or> seg = ''.'' then st
      else if seg = ''..'' then
        (if st \<noteq> [] \<and> last st \<noteq> ''..'' then butlast st
         else if rt then st else st @ [seg])
      else st @ [seg])"

definition Clean :: "string \<Rightarrow> string" where
  "Clean p =
     (if p = [] then ''.''
      else let st = foldl (clean_step (rooted p)) [] (split_path p) in
        if rooted p then Separator # join_sep st
        else if st = [] then ''.'' else join_sep st)"

text \<open>
  \<^verbatim>\<open>filepath.Join\<close>: leading empty elements are skipped, the rest is joined with the
  separator and cleaned; with no non-empty element the result is the empty string.
\<close>

definition Join :: "string list \<Rightarrow> string" where
  "Join elem =
     (case dropWhile (\<lambda>e. e = []) elem of
        [] \<Rightarrow> []
      | e # es \<Rightarrow> Clean (join_sep (e # es)))"

text \<open>An ordinary path element: not empty, not \<^verbatim>\<open>.\<close> or \<^verbatim>\<open>..\<close>, and without a separator.\<close>

definition ordinary :: "string \<Rightarrow> bool" where
  "ordinary s = (s \<noteq> [] \<and> s \<noteq> ''.'' \<and> s \<noteq> ''..'' \<and> Separator \<notin> set s)"

text \<open>The elements that \<open>Clean\<close> has kept so far: \<^verbatim>\<open>..\<close> is among them only in a relative path.\<close>

definition kept :: "bool \<Rightarrow> string list \<Rightarrow> bool" where
  "kept rt st =
     ((\<forall>s\<in>set st. s \<noteq> [] \<and> s \<noteq> ''.'' \<and> Separator \<notin> set s) \<and> (rt \<longrightarrow> ''..'' \<notin> set st))"



subsection \<open>The file system\<close>

text \<open>
  A node is a regular file with its bytes or a directory with its entries; a directory
  carries its read permission bit, which \<^verbatim>\<open>os.ReadDir\<close> needs. Other permission bits,
  links and special files are not modelled. The entries are an association list read
  with \<^const>\<open>map_of\<close>. Every string without a separator is a name: the limits of the
  kernel on names, which answers \<open>EINVAL\<close> for a name with a NUL byte and refuses a name
  of more than 255 bytes, are not modelled.
\<close>

datatype node = File string | Dir bool "(string \<times> node) list"

record fsys =
  tree :: node
  cwd :: "string list"

fun node_lookup :: "node \<Rightarrow> string list \<Rightarrow> errno + node" where
  "node_lookup n [] = Inr n"
| "node_lookup (File b) (s # q) = Inl ENOTDIR"
| "node_lookup (Dir r es) (s # q) =
     (case map_of es s of None \<Rightarrow> Inl ENOENT | Some ch \<Rightarrow> node_lookup ch q)"

definition is_dir :: "node \<Rightarrow> string list \<Rightarrow> bool" where
  "is_dir t q = (case node_lookup t q of Inr (Dir r es) \<Rightarrow> True | _ \<Rightarrow> False)"


text \<open>\<open>node_put t q n\<close> binds the path \<open>q\<close> to \<open>n\<close> when the parent of \<open>q\<close> is a directory.\<close>

fun node_put :: "node \<Rightarrow> string list \<Rightarrow> node \<Rightarrow> node" where
  "node_put t [] n = n"
| "node_put (File b) (s # q) n = File b"
| "node_put (Dir r es) (s # q) n =
     (case map_of es s of
        None \<Rightarrow> (if q = [] then Dir r (es @ [(s, n)]) else Dir r es)
      | Some ch \<Rightarrow> Dir r (AList.update s (node_put ch q n) es))"

fun node_del :: "node \<Rightarrow> string list \<Rightarrow> node" where
  "node_del t [] = t"
| "node_del (File b) (s # q) = File b"
| "node_del (Dir r es) (s # q) =
     (case map_of es s of
        None \<Rightarrow> Dir r es
      | Some ch \<Rightarrow> (if q = [] then Dir r (AList.delete s es)
                   else Dir r (AList.update s (node_del ch q) es)))"

text \<open>
  \<^verbatim>\<open>os.MkdirAll\<close> on the tree: missing directories are created readable (mode 0755);
  a regular file on the way is the error \<open>ENOTDIR\<close>, here \<open>None\<close>.
\<close>

fun node_mkdir_all :: "node \<Rightarrow> string list \<Rightarrow> node option" where
  "node_mkdir_all (File b) q = None"
| "node_mkdir_all (Dir r es) [] = Some (Dir r es)"
| "node_mkdir_all (Dir r es) (s # q) =
     (case map_of es s of
        None \<Rightarrow> map_option (\<lambda>ch. Dir r (es @ [(s, ch)])) (node_mkdir_all (Dir True []) q)
      | Some ch \<Rightarrow> map_option (\<lambda>ch'. Dir r (AList.update s ch' es)) (node_mkdir_all ch q))"

text \<open>
  What \<^verbatim>\<open>os.RemoveAll\<close> leaves of a node: \<open>None\<close> when all of it is removed. A directory
  that cannot be read keeps its entries and is removed only when it is empty.
\<close>

fun purge :: "node \<Rightarrow> node option"
  and purge_entries :: "(string \<times> node) list \<Rightarrow> (string \<times> node) list" where
  "purge (File b) = None"
| "purge (Dir r es) =
     (if r then (case purge_entries es of [] \<Rightarrow> None | e # es' \<Rightarrow> Some (Dir r (e # es')))
      else if es = [] then None else Some (Dir r es))"
| "purge_entries [] = []"
| "purge_entries (e # es) =
     (case purge (snd e) of
        None \<Rightarrow> purge_entries es
      | Some ch \<Rightarrow> (fst e, ch) # purge_entries es)"

text \<open>
  A path string is resolved element by element from the root or from the working
  directory. Without links this is what the kernel does on the paths the driver passes,
  which are cleaned paths with a suffix added to their last element.
\<close>

definition walk_step :: "string list \<Rightarrow> string \<Rightarrow> string list" where
  "walk_step st seg =
     (if seg = [] \<or> seg = ''.'' then st
      else if seg = ''..'' then butlast st
      else st @ [seg])"

definition resolve :: "string list \<Rightarrow> string \<Rightarrow> string list" where
  "resolve wd p = foldl walk_step (if rooted p then [] else wd) (split_path p)"

definition fs_lookup :: "fsys \<Rightarrow> string \<Rightarrow> errno + node" where
  "fs_lookup fs p =
     (if p = [] then Inl ENOENT else node_lookup (tree fs) (resolve (cwd fs) p))"

subsection \<open>Package os\<close>

datatype FileMode = ModeRegular | ModeDir | ModeIrregular

datatype FileInfo = FileInfo (Mode: FileMode)

fun IsDir :: "FileMode \<Rightarrow> bool" where
  "IsDir m = (m = ModeDir)"

fun IsRegular :: "FileMode \<Rightarrow> bool" where
  "IsRegular m = (m = ModeRegular)"

fun node_info :: "node \<Rightarrow> FileInfo" where
  "node_info (File b) = FileInfo ModeRegular"
| "node_info (Dir r es) = FileInfo ModeDir"

definition os_Stat :: "fsys \<Rightarrow> string \<Rightarrow> error + FileInfo" where
  "os_Stat fs p =
     (case fs_lookup fs p of
        Inl e \<Rightarrow> Inl (PathError ''stat'' e)
      | Inr n \<Rightarrow> Inr (node_info n))"


definition os_ReadFile :: "fsys \<Rightarrow> string \<Rightarrow> error + string" where
  "os_ReadFile fs p =
     (case fs_lookup fs p of
        Inl e \<Rightarrow> Inl (PathError ''open'' e)
      | Inr (File b) \<Rightarrow> Inr b
      | Inr (Dir r es) \<Rightarrow> Inl (PathError ''read'' EISDIR))"

text \<open>\<^verbatim>\<open>os.ReadDir\<close> returns the names of the entries sorted by file name.\<close>

definition os_ReadDir :: "fsys \<Rightarrow> string \<Rightarrow> error + string list" where
  "os_ReadDir fs p =
     (case fs_lookup fs p of
        Inl e \<Rightarrow> Inl (PathError ''open'' e)
      | Inr (File b) \<Rightarrow> Inl (PathError ''fdopendir'' ENOTDIR)
      | Inr (Dir r es) \<Rightarrow>
          (if r then Inr (sort (remdups (map fst es))) else Inl (PathError ''open'' EACCES)))"

definition parent_is_dir :: "fsys \<Rightarrow> string list \<Rightarrow> errno option" where
  "parent_is_dir fs q =
     (case node_lookup (tree fs) (butlast q) of
        Inl e \<Rightarrow> Some e
      | Inr (File b) \<Rightarrow> Some ENOTDIR
      | Inr (Dir r es) \<Rightarrow> None)"

definition os_Mkdir :: "fsys \<Rightarrow> string \<Rightarrow> error option \<times> fsys" where
  "os_Mkdir fs p =
     (let q = resolve (cwd fs) p in
      case fs_lookup fs p of
        Inr n \<Rightarrow> (Some (PathError ''mkdir'' EEXIST), fs)
      | Inl e \<Rightarrow>
          (if p = [] \<or> e = ENOTDIR then (Some (PathError ''mkdir'' e), fs)
           else case parent_is_dir fs q of
                  Some e' \<Rightarrow> (Some (PathError ''mkdir'' e'), fs)
                | None \<Rightarrow> (None, fs\<lparr>tree := node_put (tree fs) q (Dir True [])\<rparr>)))"

definition os_MkdirAll :: "fsys \<Rightarrow> string \<Rightarrow> error option \<times> fsys" where
  "os_MkdirAll fs p =
     (if p = [] then (Some (PathError ''mkdir'' ENOENT), fs)
      else case node_mkdir_all (tree fs) (resolve (cwd fs) p) of
             None \<Rightarrow> (Some (PathError ''mkdir'' ENOTDIR), fs)
           | Some t \<Rightarrow> (None, fs\<lparr>tree := t\<rparr>))"

text \<open>
  \<^verbatim>\<open>os.WriteFile\<close> opens with \<^verbatim>\<open>O_WRONLY|O_CREATE|O_TRUNC\<close>: an existing regular file
  is replaced, a missing one is created in an existing directory.
\<close>

definition os_WriteFile :: "fsys \<Rightarrow> string \<Rightarrow> string \<Rightarrow> error option \<times> fsys" where
  "os_WriteFile fs p b =
     (let q = resolve (cwd fs) p in
      case fs_lookup fs p of
        Inr (Dir r es) \<Rightarrow> (Some (PathError ''open'' EISDIR), fs)
      | Inr (File b') \<Rightarrow> (None, fs\<lparr>tree := node_put (tree fs) q (File b)\<rparr>)
      | Inl e \<Rightarrow>
          (if p = [] \<or> e = ENOTDIR then (Some (PathError ''open'' e), fs)
           else case parent_is_dir fs q of
                  Some e' \<Rightarrow> (Some (PathError ''open'' e'), fs)
                | None \<Rightarrow> (None, fs\<lparr>tree := node_put (tree fs) q (File b)\<rparr>)))"

text \<open>
  \<^verbatim>\<open>os.Rename\<close>: Go refuses an existing directory as the new name with \<open>EEXIST\<close>
  before it calls \<^verbatim>\<open>rename(2)\<close>; the system call then replaces a regular file.
\<close>

definition os_Rename :: "fsys \<Rightarrow> string \<Rightarrow> string \<Rightarrow> error option \<times> fsys" where
  "os_Rename fs oldname newname =
     (let qo = resolve (cwd fs) oldname; qn = resolve (cwd fs) newname in
      case fs_lookup fs oldname of
        Inl e \<Rightarrow> (Some (LinkError ''rename'' e), fs)
      | Inr n \<Rightarrow>
          (case fs_lookup fs newname of
             Inr (Dir r es) \<Rightarrow>
               (if newname = oldname \<or> qo \<noteq> qn then (Some (LinkError ''rename'' EEXIST), fs)
                else (None, fs))
           | Inr (File b) \<Rightarrow>
               (if qo = qn then (None, fs)
                else case n of
                       Dir r es \<Rightarrow> (Some (LinkError ''rename'' ENOTDIR), fs)
                     | File b' \<Rightarrow>
                         (None, fs\<lparr>tree := node_put (node_del (tree fs) qo) qn n\<rparr>))
           | Inl e \<Rightarrow>
               (if newname = [] \<or> e = ENOTDIR then (Some (LinkError ''rename'' e), fs)
                else case parent_is_dir fs qn of
                       Some e' \<Rightarrow> (Some (LinkError ''rename'' e'), fs)
                     | None \<Rightarrow>
                         (if qo = [] then (Some (LinkError ''rename'' EBUSY), fs)
                          else if take (length qo) qn = qo
                          then (Some (LinkError ''rename'' EINVAL), fs)
                          else (None, fs\<lparr>tree := node_put (node_del (tree fs) qo) qn n\<rparr>)))))"

text \<open>
  \<^verbatim>\<open>os.RemoveAll\<close>: the empty path and a missing path are no error; a path that ends in
  a \<^verbatim>\<open>.\<close> element is refused with \<open>EINVAL\<close>.
\<close>

definition endsWithDot :: "string \<Rightarrow> bool" where
  "endsWithDot p = (p = ''.'' \<or> (length p \<ge> 2 \<and> drop (length p - 2) p = ''/.''))"

definition os_RemoveAll :: "fsys \<Rightarrow> string \<Rightarrow> error option \<times> fsys" where
  "os_RemoveAll fs p =
     (if p = [] then (None, fs)
      else if endsWithDot p then (Some (PathError ''RemoveAll'' EINVAL), fs)
      else let q = resolve (cwd fs) p in
        case fs_lookup fs p of
          Inl e \<Rightarrow> (if e = ENOENT then (None, fs) else (Some (PathError ''unlinkat'' e), fs))
        | Inr n \<Rightarrow>
            (case purge n of
               Some n' \<Rightarrow>
                 (Some (PathError ''openfdat'' EACCES), fs\<lparr>tree := node_put (tree fs) q n'\<rparr>)
             | None \<Rightarrow>
                 (if q = [] then (Some (PathError ''unlinkat'' EBUSY), fs\<lparr>tree := Dir True []\<rparr>)
                  else (None, fs\<lparr>tree := node_del (tree fs) q\<rparr>))))"

subsection \<open>Package encoding/json\<close>

text \<open>
  The driver passes values of type \<^verbatim>\<open>interface{}\<close> to \<^verbatim>\<open>json.MarshalIndent\<close> and
  \<^verbatim>\<open>json.Unmarshal\<close>. The two functions are a parameter of the model: \<open>MarshalIndent v
  prefix indent\<close>, and \<open>Unmarshal data v\<close>, which returns the value stored through the
  pointer \<open>v\<close>.
\<close>

record 'v json =
  MarshalIndent :: "'v \<Rightarrow> string \<Rightarrow> string \<Rightarrow> error + string"
  Unmarshal :: "string \<Rightarrow> 'v \<Rightarrow> error + 'v"

subsection \<open>An instance of the parameter: JSON documents\<close>

text \<open>
  A JSON document as a tree; a number keeps its literal, as \<^verbatim>\<open>json.Number\<close> does for the
  fields \<^verbatim>\<open>Age\<close> and \<^verbatim>\<open>Pincode\<close> of \<^verbatim>\<open>main.go\<close>. The encoder lays a document out as
  \<^verbatim>\<open>json.MarshalIndent\<close> does, an empty number literal as \<^verbatim>\<open>0\<close>. The instance is
  narrower than the package in three places: the encoder covers strings of printable
  ASCII and refuses the others, the decoder reads an escaped code point below \<^verbatim>\<open>0080\<close> only, and
  \<open>Unmarshal\<close> decodes into an empty interface, whatever the pointer held before.
\<close>

datatype jvalue =
    JNull
  | JBool bool
  | JNumber string
  | JString string
  | JArray "jvalue list"
  | JObject "(string \<times> jvalue) list"

definition is_digit :: "char \<Rightarrow> bool" where
  "is_digit c = (c \<in> set ''0123456789'')"

definition digits1 :: "string \<Rightarrow> string option" where
  "digits1 s = (case s of [] \<Rightarrow> None | c # cs \<Rightarrow> if is_digit c then Some (dropWhile is_digit cs) else None)"

definition number_int :: "string \<Rightarrow> string option" where
  "number_int s =
     (case s of
        [] \<Rightarrow> None
      | c # cs \<Rightarrow> if c = CHR ''0'' then Some cs else digits1 (c # cs))"

definition number_frac :: "string \<Rightarrow> string option" where
  "number_frac s =
     (case s of
        [] \<Rightarrow> Some []
      | c # cs \<Rightarrow> if c = CHR ''.'' then digits1 cs else Some (c # cs))"

definition number_exp :: "string \<Rightarrow> string option" where
  "number_exp s =
     (case s of
        [] \<Rightarrow> Some []
      | c # cs \<Rightarrow>
          if c = CHR ''e'' \<or> c = CHR ''E'' then
            (case cs of
               [] \<Rightarrow> None
             | g # gs \<Rightarrow> if g = CHR ''+'' \<or> g = CHR ''-'' then digits1 gs else digits1 (g # gs))
          else Some (c # cs))"

definition valid_number :: "string \<Rightarrow> bool" where
  "valid_number s =
     (case number_int (case s of [] \<Rightarrow> [] | c # cs \<Rightarrow> if c = CHR ''-'' then cs else c # cs) of
        None \<Rightarrow> False
      | Some r1 \<Rightarrow>
          (case number_frac r1 of
             None \<Rightarrow> False
           | Some r2 \<Rightarrow> (case number_exp r2 of None \<Rightarrow> False | Some r3 \<Rightarrow> r3 = [])))"

definition hex_digit :: "nat \<Rightarrow> char" where
  "hex_digit n = ''0123456789abcdef'' ! (n mod 16)"

definition escape_char :: "char \<Rightarrow> string" where
  "escape_char c =
     (if c = CHR 0x22 \<or> c = CHR 0x5C then [CHR 0x5C, c]
      else if c = CHR ''<'' \<or> c = CHR ''>'' \<or> c = CHR ''&'' then
        [CHR 0x5C, CHR ''u'', CHR ''0'', CHR ''0'',
         hex_digit (of_char c div 16), hex_digit (of_char c)]
      else [c])"

definition printable :: "char \<Rightarrow> bool" where
  "printable c = (32 \<le> (of_char c :: nat) \<and> (of_char c :: nat) < 127)"

definition encode_string :: "string \<Rightarrow> string option" where
  "encode_string s =
     (if list_all printable s then Some (CHR 0x22 # concat (map escape_char s) @ [CHR 0x22])
      else None)"

definition newline_indent :: "string \<Rightarrow> string \<Rightarrow> nat \<Rightarrow> string" where
  "newline_indent pre indent depth = CHR 0x0A # pre @ concat (replicate depth indent)"

fun encode :: "string \<Rightarrow> string \<Rightarrow> nat \<Rightarrow> jvalue \<Rightarrow> string option"
  and encode_elems :: "string \<Rightarrow> string \<Rightarrow> nat \<Rightarrow> jvalue list \<Rightarrow> string option"
  and encode_members :: "string \<Rightarrow> string \<Rightarrow> nat \<Rightarrow> (string \<times> jvalue) list \<Rightarrow> string option" where
  "encode p i d JNull = Some ''null''"
| "encode p i d (JBool b) = Some (if b then ''true'' else ''false'')"
| "encode p i d (JNumber s) =
     (if s = [] then Some ''0'' else if valid_number s then Some s else None)"
| "encode p i d (JString s) = encode_string s"
| "encode p i d (JArray xs) =
     (if xs = [] then Some ''[]''
      else case encode_elems p i (Suc d) xs of
             None \<Rightarrow> None
           | Some body \<Rightarrow>
               Some (CHR ''['' # newline_indent p i (Suc d) @ body @ newline_indent p i d @ '']''))"
| "encode p i d (JObject ms) =
     (if ms = [] then Some ''{}''
      else case encode_members p i (Suc d) ms of
             None \<Rightarrow> None
           | Some body \<Rightarrow>
               Some (CHR ''{'' # newline_indent p i (Suc d) @ body @ newline_indent p i d @ ''}''))"
| "encode_elems p i d [] = Some []"
| "encode_elems p i d (x # xs) =
     (case encode p i d x of
        None \<Rightarrow> None
      | Some a \<Rightarrow>
          (if xs = [] then Some a
           else case encode_elems p i d xs of
                  None \<Rightarrow> None
                | Some rest \<Rightarrow> Some (a @ CHR '','' # newline_indent p i d @ rest)))"
| "encode_members p i d [] = Some []"
| "encode_members p i d (m # ms) =
     (case encode_string (fst m) of
        None \<Rightarrow> None
      | Some k \<Rightarrow>
          (case encode p i d (snd m) of
             None \<Rightarrow> None
           | Some a \<Rightarrow>
               (if ms = [] then Some (k @ '': '' @ a)
                else case encode_members p i d ms of
                       None \<Rightarrow> None
                     | Some rest \<Rightarrow>
                         Some (k @ '': '' @ a @ CHR '','' # newline_indent p i d @ rest))))"

definition jvalue_MarshalIndent :: "jvalue \<Rightarrow> string \<Rightarrow> string \<Rightarrow> error + string" where
  "jvalue_MarshalIndent v pre indent =
     (case encode pre indent 0 v of
        None \<Rightarrow> Inl (JsonError ''json: unsupported value'')
      | Some b \<Rightarrow> Inr b)"

text \<open>The decoder: a recursive-descent parser; its fuel bounds the nesting and the number of elements.\<close>

definition is_space :: "char \<Rightarrow> bool" where
  "is_space c = (c = CHR '' '' \<or> c = CHR 0x09 \<or> c = CHR 0x0A \<or> c = CHR 0x0D)"

definition skip_ws :: "string \<Rightarrow> string" where
  "skip_ws s = dropWhile is_space s"

definition hex_value :: "char \<Rightarrow> nat option" where
  "hex_value c =
     (let n = (of_char c :: nat) in
      if 48 \<le> n \<and> n \<le> 57 then Some (n - 48)
      else if 97 \<le> n \<and> n \<le> 102 then Some (n - 87)
      else if 65 \<le> n \<and> n \<le> 70 then Some (n - 55)
      else None)"

definition unescape :: "char \<Rightarrow> char option" where
  "unescape e =
     (if e = CHR 0x22 \<or> e = CHR 0x5C \<or> e = CHR ''/'' then Some e
      else if e = CHR ''b'' then Some (CHR 0x08)
      else if e = CHR ''f'' then Some (CHR 0x0C)
      else if e = CHR ''n'' then Some (CHR 0x0A)
      else if e = CHR ''r'' then Some (CHR 0x0D)
      else if e = CHR ''t'' then Some (CHR 0x09)
      else None)"

definition consed :: "'a \<Rightarrow> ('a list \<times> 'b) option \<Rightarrow> ('a list \<times> 'b) option" where
  "consed x r = (case r of None \<Rightarrow> None | Some (xs, rest) \<Rightarrow> Some (x # xs, rest))"

fun parse_string :: "string \<Rightarrow> (string \<times> string) option" where
  "parse_string [] = None"
| "parse_string (c # cs) =
     (if c = CHR 0x22 then Some ([], cs)
      else if c = CHR 0x5C then
        (case cs of
           [] \<Rightarrow> None
         | e # es \<Rightarrow>
             (if e = CHR ''u'' then
                (case es of
                   h1 # h2 # h3 # h4 # rest \<Rightarrow>
                     (case (hex_value h1, hex_value h2, hex_value h3, hex_value h4) of
                        (Some a, Some b, Some c', Some d) \<Rightarrow>
                          (if a = 0 \<and> b = 0 \<and> c' < 8
                           then consed (char_of (c' * 16 + d)) (parse_string rest)
                           else None)
                      | _ \<Rightarrow> None)
                 | _ \<Rightarrow> None)
              else case unescape e of
                     None \<Rightarrow> None
                   | Some ch \<Rightarrow> consed ch (parse_string es)))
      else if (of_char c :: nat) < 32 then None
      else consed c (parse_string cs))"

definition number_char :: "char \<Rightarrow> bool" where
  "number_char c = (is_digit c \<or> c \<in> set ''+-.eE'')"

fun parse_value :: "nat \<Rightarrow> string \<Rightarrow> (jvalue \<times> string) option"
  and parse_elems :: "nat \<Rightarrow> string \<Rightarrow> (jvalue list \<times> string) option"
  and parse_members :: "nat \<Rightarrow> string \<Rightarrow> ((string \<times> jvalue) list \<times> string) option" where
  "parse_value 0 s = None"
| "parse_value (Suc n) s =
     (case skip_ws s of
        [] \<Rightarrow> None
      | c # cs \<Rightarrow>
          if c = CHR 0x22 then
            (case parse_string cs of None \<Rightarrow> None | Some (x, r) \<Rightarrow> Some (JString x, r))
          else if c = CHR ''['' then
            (case skip_ws cs of
               [] \<Rightarrow> None
             | e # es \<Rightarrow>
                 if e = CHR '']'' then Some (JArray [], es)
                 else (case parse_elems n cs of None \<Rightarrow> None | Some (xs, r) \<Rightarrow> Some (JArray xs, r)))
          else if c = CHR ''{'' then
            (case skip_ws cs of
               [] \<Rightarrow> None
             | e # es \<Rightarrow>
                 if e = CHR ''}'' then Some (JObject [], es)
                 else (case parse_members n cs of None \<Rightarrow> None | Some (ms, r) \<Rightarrow> Some (JObject ms, r)))
          else if take 4 (c # cs) = ''null'' then Some (JNull, drop 4 (c # cs))
          else if take 4 (c # cs) = ''true'' then Some (JBool True, drop 4 (c # cs))
          else if take 5 (c # cs) = ''false'' then Some (JBool False, drop 5 (c # cs))
          else if valid_number (takeWhile number_char (c # cs))
          then Some (JNumber (takeWhile number_char (c # cs)), dropWhile number_char (c # cs))
          else None)"
| "parse_elems 0 s = None"
| "parse_elems (Suc n) s =
     (case parse_value n s of
        None \<Rightarrow> None
      | Some (x, r) \<Rightarrow>
          (case skip_ws r of
             [] \<Rightarrow> None
           | c # cs \<Rightarrow>
               if c = CHR '','' then consed x (parse_elems n cs)
               else if c = CHR '']'' then Some ([x], cs)
               else None))"
| "parse_members 0 s = None"
| "parse_members (Suc n) s =
     (case skip_ws s of
        [] \<Rightarrow> None
      | q # qs \<Rightarrow>
          if q \<noteq> CHR 0x22 then None
          else (case parse_string qs of
                  None \<Rightarrow> None
                | Some (k, r) \<Rightarrow>
                    (case skip_ws r of
                       [] \<Rightarrow> None
                     | c # cs \<Rightarrow>
                         if c \<noteq> CHR '':'' then None
                         else (case parse_value n cs of
                                 None \<Rightarrow> None
                               | Some (x, r') \<Rightarrow>
                                   (case skip_ws r' of
                                      [] \<Rightarrow> None
                                    | c' # cs' \<Rightarrow>
                                        if c' = CHR '','' then consed (k, x) (parse_members n cs')
                                        else if c' = CHR ''}'' then Some ([(k, x)], cs')
                                        else None)))))"

definition jvalue_Unmarshal :: "string \<Rightarrow> jvalue \<Rightarrow> error + jvalue" where
  "jvalue_Unmarshal b v =
     (case parse_value (length b) b of
        None \<Rightarrow> Inl (JsonError ''json: syntax error'')
      | Some (x, r) \<Rightarrow>
          (if skip_ws r = [] then Inr x
           else Inl (JsonError ''json: invalid character after top-level value'')))"

definition jvalue_json :: "jvalue json" where
  "jvalue_json = \<lparr>MarshalIndent = jvalue_MarshalIndent, Unmarshal = jvalue_Unmarshal\<rparr>"

section \<open>The driver\<close>

text \<open>
  \<^verbatim>\<open>Driver\<close>: the directory of the database and the collections that have a mutex. The
  model is sequential, so locking and unlocking a mutex change nothing; the logger,
  which only prints, is left out.
\<close>

record Driver =
  dir :: string
  mutexes :: "string list"

definition New :: "fsys \<Rightarrow> string \<Rightarrow> Driver \<times> error option \<times> fsys" where
  "New fs dir0 =
     (let d = Clean dir0;
          driver = \<lparr>dir = d, mutexes = []\<rparr>
      in case os_Stat fs d of
           Inr fi \<Rightarrow> (driver, None, fs)
         | Inl err \<Rightarrow> (case os_Mkdir fs d of (e, fs') \<Rightarrow> (driver, e, fs')))"

definition validateCollectionResource :: "string \<Rightarrow> string \<Rightarrow> error option" where
  "validateCollectionResource collection resource =
     (if collection = [] then
        Some (ErrorString ''Missing Collection - no place to save the records!'')
      else if resource = [] then
        Some (ErrorString ''Missing Resource - unable to save record (No Name)!'')
      else None)"

definition getOrCreateMutex :: "Driver \<Rightarrow> string \<Rightarrow> Driver" where
  "getOrCreateMutex d collection =
     (if collection \<in> set (mutexes d) then d
      else d\<lparr>mutexes := collection # mutexes d\<rparr>)"

text \<open>\<^verbatim>\<open>stat\<close>: the path as given, and the path with \<^verbatim>\<open>.json\<close> only when the first does not exist.\<close>

definition stat :: "fsys \<Rightarrow> string \<Rightarrow> error + FileInfo" where
  "stat fs path =
     (case os_Stat fs path of
        Inr fi \<Rightarrow> Inr fi
      | Inl err \<Rightarrow> (if IsNotExist err then os_Stat fs (path @ ''.json'') else Inl err))"

definition Write ::
  "'v json \<Rightarrow> Driver \<Rightarrow> fsys \<Rightarrow> string \<Rightarrow> string \<Rightarrow> 'v \<Rightarrow> error option \<times> Driver \<times> fsys" where
  "Write J d fs collection resource v =
     (case validateCollectionResource collection resource of
        Some err \<Rightarrow> (Some err, d, fs)
      | None \<Rightarrow>
          (let d1 = getOrCreateMutex d collection;
               dir1 = Join [dir d, collection];
               fnlPath = Join [dir1, resource @ ''.json''];
               tmpPath = fnlPath @ ''.tmp''
           in case os_MkdirAll fs dir1 of
                (Some err, fs1) \<Rightarrow> (Some err, d1, fs1)
              | (None, fs1) \<Rightarrow>
                  (case MarshalIndent J v [] [CHR 0x09] of
                     Inl err \<Rightarrow> (Some err, d1, fs1)
                   | Inr b \<Rightarrow>
                       (case os_WriteFile fs1 tmpPath (b @ [CHR 0x0A]) of
                          (Some err, fs2) \<Rightarrow> (Some err, d1, fs2)
                        | (None, fs2) \<Rightarrow>
                            (case os_Rename fs2 tmpPath fnlPath of
                               (r, fs3) \<Rightarrow> (r, d1, fs3))))))"

definition Read ::
  "'v json \<Rightarrow> Driver \<Rightarrow> fsys \<Rightarrow> string \<Rightarrow> string \<Rightarrow> 'v \<Rightarrow> error + 'v" where
  "Read J d fs collection resource v =
     (case validateCollectionResource collection resource of
        Some err \<Rightarrow> Inl err
      | None \<Rightarrow>
          (let record = Join [dir d, collection, resource]
           in case stat fs record of
                Inl err \<Rightarrow> Inl err
              | Inr fi \<Rightarrow>
                  (case os_ReadFile fs (record @ ''.json'') of
                     Inl err \<Rightarrow> Inl err
                   | Inr b \<Rightarrow> Unmarshal J b v)))"

fun read_records :: "fsys \<Rightarrow> string \<Rightarrow> string list \<Rightarrow> string list \<Rightarrow> error + string list" where
  "read_records fs dir1 [] records = Inr records"
| "read_records fs dir1 (f # files) records =
     (case os_ReadFile fs (Join [dir1, f]) of
        Inl err \<Rightarrow> Inl err
      | Inr b \<Rightarrow> read_records fs dir1 files (records @ [b]))"

definition ReadAll :: "Driver \<Rightarrow> fsys \<Rightarrow> string \<Rightarrow> error + string list" where
  "ReadAll d fs collection =
     (if collection = [] then Inl (ErrorString ''Missing Collection - unable to read!'')
      else let dir1 = Join [dir d, collection]
           in case stat fs dir1 of
                Inl err \<Rightarrow> Inl err
              | Inr fi \<Rightarrow>
                  (let files = (case os_ReadDir fs dir1 of Inl err \<Rightarrow> [] | Inr names \<Rightarrow> names)
                   in read_records fs dir1 files []))"

definition Delete :: "Driver \<Rightarrow> fsys \<Rightarrow> string \<Rightarrow> string \<Rightarrow> error option \<times> Driver \<times> fsys" where
  "Delete d fs collection resource =
     (case validateCollectionResource collection resource of
        Some err \<Rightarrow> (Some err, d, fs)
      | None \<Rightarrow>
          (let path = Join [collection, resource];
               d1 = getOrCreateMutex d collection;
               dir1 = Join [dir d, path]
           in case stat fs dir1 of
                Inl err \<Rightarrow>
                  (Some (ErrorString (''Unable to find record. Dir '' @ path @ [CHR 0x0A])), d1, fs)
              | Inr fi \<Rightarrow>
                  (if IsDir (Mode fi) then
                     (case os_RemoveAll fs dir1 of (r, fs1) \<Rightarrow> (r, d1, fs1))
                   else if IsRegular (Mode fi) then
                     (case os_RemoveAll fs (dir1 @ ''.json'') of (r, fs1) \<Rightarrow> (r, d1, fs1))
                   else (None, d1, fs))))"

text \<open>
  The directory in which \<open>Write\<close> and \<open>Read\<close> look for the last element of the resource
  name, as a resolved path.
\<close>

definition record_dir :: "string list \<Rightarrow> Driver \<Rightarrow> string \<Rightarrow> string \<Rightarrow> string list" where
  "record_dir wd d collection resource =
     foldl walk_step (resolve wd (Join [dir d, collection])) (butlast (split_path resource))"

section \<open>Sample data\<close>

text \<open>
  A database in the directory \<^verbatim>\<open>data\<close> of the working directory \<^verbatim>\<open>/\<close>, with the
  collection \<^verbatim>\<open>user\<close> and the record \<^verbatim>\<open>alice\<close> of the scenario in the specification.
\<close>

definition alice :: jvalue where
  "alice = JObject [(''Name'', JString ''Alice''), (''Age'', JNumber ''30'')]"

definition alice_bytes :: string where
  "alice_bytes =
     [CHR ''{'', CHR 0x0A, CHR 0x09] @ [CHR 0x22] @ ''Name'' @ [CHR 0x22] @ '': '' @
     [CHR 0x22] @ ''Alice'' @ [CHR 0x22] @ [CHR '','', CHR 0x0A, CHR 0x09] @
     [CHR 0x22] @ ''Age'' @ [CHR 0x22] @ '': 30'' @ [CHR 0x0A, CHR ''}'', CHR 0x0A]"

definition sample_driver :: Driver where
  "sample_driver = \<lparr>dir = ''data'', mutexes = []\<rparr>"

definition empty_store :: fsys where
  "empty_store = \<lparr>tree = Dir True [(''data'', Dir True [])], cwd = []\<rparr>"

definition empty_collection_store :: fsys where
  "empty_collection_store =
     \<lparr>tree = Dir True [(''data'', Dir True [(''user'', Dir True [])])], cwd = []\<rparr>"

definition sample_store :: fsys where
  "sample_store =
     \<lparr>tree = Dir True [(''data'', Dir True [(''user'', Dir True [(''alice.json'', File alice_bytes)])])],
      cwd = []\<rparr>"

text \<open>The record of \<open>alice\<close> indented with two spaces, and the driver after a call for \<^verbatim>\<open>user\<close>.\<close>

definition alice_two_spaces :: string where
  "alice_two_spaces =
     [CHR ''{'', CHR 0x0A] @ ''  '' @ [CHR 0x22] @ ''Name'' @ [CHR 0x22] @ '': '' @
     [CHR 0x22] @ ''Alice'' @ [CHR 0x22] @ [CHR '','', CHR 0x0A] @ ''  '' @
     [CHR 0x22] @ ''Age'' @ [CHR 0x22] @ '': 30'' @ [CHR 0x0A, CHR ''}'']"

definition user_driver :: Driver where
  "user_driver = \<lparr>dir = ''data'', mutexes = [''user'']\<rparr>"

text \<open>
  The store after \<open>Write\<close> of the resource \<^verbatim>\<open>.\<close>, a store in which the final path of
  \<open>alice\<close> is a directory, and that store with the temporary file of a write that failed.
\<close>

definition dot_store :: fsys where
  "dot_store =
     \<lparr>tree = Dir True [(''data'', Dir True [(''user'', Dir True [(''..json'', File alice_bytes)])])],
      cwd = []\<rparr>"

definition suffixed_dir_store :: fsys where
  "suffixed_dir_store =
     \<lparr>tree = Dir True [(''data'', Dir True [(''user'',
        Dir True [(''alice.json'', Dir True [(''inner'', File ''x'')])])])],
      cwd = []\<rparr>"

definition suffixed_dir_tmp_store :: fsys where
  "suffixed_dir_tmp_store =
     \<lparr>tree = Dir True [(''data'', Dir True [(''user'',
        Dir True [(''alice.json'', Dir True [(''inner'', File ''x'')]),
                  (''alice.json.tmp'', File alice_bytes)])])],
      cwd = []\<rparr>"





text \<open>A store whose collection directory has no read permission.\<close>

definition unreadable_store :: fsys where
  "unreadable_store =
     \<lparr>tree = Dir True [(''data'', Dir True [(''user'',
        Dir False [(''alice.json'', File alice_bytes)])])],
      cwd = []\<rparr>"

text \<open>A store whose collection holds a file without the suffix, and no record beside it.\<close>

definition bare_file_store :: fsys where
  "bare_file_store =
     \<lparr>tree = Dir True [(''data'', Dir True [(''user'', Dir True [(''alice'', File ''x'')])])],
      cwd = []\<rparr>"

text \<open>A store with two records, and a store whose collection also holds a directory.\<close>

definition two_records_store :: fsys where
  "two_records_store =
     \<lparr>tree = Dir True [(''data'', Dir True [(''user'',
        Dir True [(''bob.json'', File ''{}''), (''alice.json'', File alice_bytes)])])],
      cwd = []\<rparr>"







section \<open>Paths\<close>

lemma split_path_nonempty: "split_path p \<noteq> []"
  by (induction p) (auto split: list.splits)

lemma split_path_append: "split_path (a @ Separator # b) = split_path a @ split_path b"
  by (induction a) (auto split: list.splits simp: split_path_nonempty)

lemma split_path_single: "Separator \<notin> set s \<Longrightarrow> split_path s = [s]"
  by (induction s) auto

lemma split_path_no_sep: "s \<in> set (split_path p) \<Longrightarrow> Separator \<notin> set s"
  by (induction p arbitrary: s) (auto split: if_splits list.splits)

lemma join_sep_snoc: "join_sep (st @ [s]) = (if st = [] then s else join_sep st @ Separator # s)"
  by (induction st rule: join_sep.induct) auto

lemma split_join_sep:
  "st \<noteq> [] \<Longrightarrow> \<forall>s\<in>set st. Separator \<notin> set s \<Longrightarrow> split_path (join_sep st) = st"
proof (induction st rule: join_sep.induct)
  case 1
  then show ?case by simp
next
  case (2 s)
  then show ?case by (simp add: split_path_single)
next
  case (3 s t ss)
  then show ?case by (simp add: split_path_append split_path_single)
qed

lemma kept_butlast: "kept rt st \<Longrightarrow> kept rt (butlast st)"
  unfolding kept_def by (meson in_set_butlastD)

lemma kept_snoc:
  "kept rt st \<Longrightarrow> seg \<noteq> [] \<Longrightarrow> seg \<noteq> ''.'' \<Longrightarrow> Separator \<notin> set seg \<Longrightarrow>
   rt \<longrightarrow> seg \<noteq> ''..'' \<Longrightarrow> kept rt (st @ [seg])"
  unfolding kept_def by auto

lemma kept_clean_step:
  "kept rt st \<Longrightarrow> Separator \<notin> set seg \<Longrightarrow> kept rt (clean_step rt st seg)"
proof -
  assume k: "kept rt st" and n: "Separator \<notin> set seg"
  have nil: "kept rt []" by (simp add: kept_def)
  have dd: "\<not> rt \<Longrightarrow> kept rt (st @ [''..''])"
    using k by (rule kept_snoc) (simp_all add: Separator_def)
  show ?thesis
    unfolding clean_step_def using k n nil dd
    by (auto simp add: kept_butlast kept_snoc)
qed

lemma kept_foldl:
  "kept rt st \<Longrightarrow> \<forall>s\<in>set segs. Separator \<notin> set s \<Longrightarrow> kept rt (foldl (clean_step rt) st segs)"
  by (induction segs arbitrary: st) (auto simp: kept_clean_step)

lemma kept_split: "kept rt (foldl (clean_step rt) [] (split_path p))"
  by (rule kept_foldl) (auto simp: kept_def split_path_no_sep)

lemma walk_clean_step:
  assumes "kept rt st" and "rt \<longrightarrow> base = []"
  shows "walk_step (foldl walk_step base st) seg = foldl walk_step base (clean_step rt st seg)"
proof (cases "seg = ''..''")
  case False
  then show ?thesis by (simp add: clean_step_def walk_step_def)
next
  case True
  show ?thesis
  proof (cases "st \<noteq> [] \<and> last st \<noteq> ''..''")
    case True
    then obtain st' l where st: "st = st' @ [l]" and l: "l \<noteq> ''..''"
      by (metis append_butlast_last_id)
    from assms(1) st have "l \<noteq> []" "l \<noteq> ''.''" by (auto simp: kept_def)
    with l st \<open>seg = ''..''\<close> show ?thesis
      by (simp add: clean_step_def walk_step_def)
  next
    case False
    show ?thesis
    proof (cases rt)
      case True
      with assms have "''..'' \<notin> set st" "base = []" by (auto simp: kept_def)
      with False have "st = []" by (metis last_in_set)
      with True \<open>base = []\<close> \<open>seg = ''..''\<close> show ?thesis
        by (simp add: clean_step_def walk_step_def)
    next
      case F: False
      with False \<open>seg = ''..''\<close> show ?thesis
        by (auto simp add: clean_step_def)
    qed
  qed
qed

lemma walk_clean_foldl:
  "kept rt st \<Longrightarrow> rt \<longrightarrow> base = [] \<Longrightarrow> \<forall>s\<in>set segs. Separator \<notin> set s \<Longrightarrow>
   foldl walk_step base (foldl (clean_step rt) st segs) = foldl walk_step (foldl walk_step base st) segs"
proof (induction segs arbitrary: st)
  case Nil
  then show ?case by simp
next
  case (Cons seg segs)
  have "kept rt (clean_step rt st seg)" using Cons.prems by (simp add: kept_clean_step)
  then have "foldl walk_step base (foldl (clean_step rt) (clean_step rt st seg) segs)
     = foldl walk_step (foldl walk_step base (clean_step rt st seg)) segs"
    using Cons by simp
  then show ?case using walk_clean_step [OF Cons.prems(1,2)] by simp
qed

lemma walk_step_empty: "walk_step w [] = w"
  by (simp add: walk_step_def)

lemma not_rooted_append: "s \<noteq> [] \<Longrightarrow> Separator \<notin> set s \<Longrightarrow> \<not> rooted (s @ x)"
  by (cases s) (auto simp: rooted_def)

lemma kept_join_not_rooted: "kept rt st \<Longrightarrow> st \<noteq> [] \<Longrightarrow> \<not> rooted (join_sep st)"
  using not_rooted_append [of _ "[]"] not_rooted_append
  by (cases st rule: join_sep.cases) (auto simp: kept_def)

lemma kept_join_nonempty: "kept rt st \<Longrightarrow> st \<noteq> [] \<Longrightarrow> join_sep st \<noteq> []"
  by (cases st rule: join_sep.cases) (auto simp: kept_def)

lemma Clean_nonempty: "Clean p \<noteq> []"
  using kept_split [of "rooted p" p]
  by (auto simp: Clean_def Let_def kept_join_nonempty)

lemma resolve_Clean: "p \<noteq> [] \<Longrightarrow> resolve wd (Clean p) = resolve wd p"
proof -
  assume p: "p \<noteq> []"
  define rt where "rt = rooted p"
  define st where "st = foldl (clean_step rt) [] (split_path p)"
  define base where "base = (if rt then [] else wd)"
  have k: "kept rt st" unfolding st_def by (rule kept_split)
  have nosep: "\<forall>s\<in>set st. Separator \<notin> set s" using k by (simp add: kept_def)
  have w: "foldl walk_step base st = foldl walk_step base (split_path p)"
    unfolding st_def
    using walk_clean_foldl [of rt "[]" base "split_path p"]
    by (simp add: kept_def base_def split_path_no_sep)
  show ?thesis
  proof (cases rt)
    case True
    then have c: "Clean p = Separator # join_sep st"
      using p by (simp add: Clean_def rt_def st_def Let_def)
    have "resolve wd (Clean p) = foldl walk_step [] st"
    proof (cases "st = []")
      case True
      then show ?thesis by (simp add: c resolve_def rooted_def walk_step_empty)
    next
      case False
      then show ?thesis
        using nosep by (simp add: c resolve_def rooted_def walk_step_empty split_join_sep)
    qed
    with w True show ?thesis by (simp add: resolve_def rt_def base_def)
  next
    case False
    show ?thesis
    proof (cases "st = []")
      case True
      with False have c: "Clean p = ''.''"
        using p by (simp add: Clean_def rt_def st_def Let_def)
      show ?thesis using w True False
        by (simp add: c resolve_def rooted_def rt_def base_def walk_step_def Separator_def)
    next
      case ne: False
      with False have c: "Clean p = join_sep st"
        using p by (simp add: Clean_def rt_def st_def Let_def)
      have "\<not> rooted (join_sep st)" using k ne by (rule kept_join_not_rooted)
      then show ?thesis using w False ne nosep
        by (simp add: c resolve_def rt_def base_def split_join_sep)
    qed
  qed
qed

lemma rooted_append: "a \<noteq> [] \<Longrightarrow> rooted (a @ b) = rooted a"
  by (cases a) (auto simp: rooted_def)

lemma ordinary_append: "ordinary s \<Longrightarrow> Separator \<notin> set x \<Longrightarrow> ordinary (s @ x)"
  by (auto simp: ordinary_def append_eq_Cons_conv Cons_eq_append_conv)

lemma resolve_child:
  "a \<noteq> [] \<Longrightarrow> ordinary s \<Longrightarrow> resolve wd (a @ Separator # s) = resolve wd a @ [s]"
  by (simp add: resolve_def rooted_append split_path_append split_path_single ordinary_def walk_step_def)


lemma Clean_child_append:
  assumes "a \<noteq> []" "ordinary s" "Separator \<notin> set x"
  shows "Clean (a @ Separator # s) @ x = Clean (a @ Separator # s @ x)"
proof -
  have o: "ordinary (s @ x)" using assms by (simp add: ordinary_append)
  have 1: "\<And>t. ordinary t \<Longrightarrow>
     Clean (a @ Separator # t) =
       (let st = foldl (clean_step (rooted a)) [] (split_path a) in
        (if rooted a then [Separator] else []) @ (if st = [] then [] else join_sep st @ [Separator]) @ t)"
    using assms(1)
    by (auto simp add: Clean_def rooted_append split_path_append split_path_single ordinary_def
        clean_step_def Let_def join_sep_snoc)
  show ?thesis using 1 [OF assms(2)] 1 [OF o] by (simp add: Let_def)
qed

subsection \<open>The paths of a record\<close>

lemma split_path_snoc_chars:
  "Separator \<notin> set x \<Longrightarrow>
   split_path (r @ x) = butlast (split_path r) @ [last (split_path r) @ x]"
proof (cases "Separator \<in> set r")
  case False
  assume "Separator \<notin> set x"
  with False show ?thesis by (simp add: split_path_single)
next
  case True
  assume x: "Separator \<notin> set x"
  from True obtain r1 r2 where r: "r = r1 @ Separator # r2" and r2: "Separator \<notin> set r2"
    by (meson split_list_last)
  show ?thesis using x r2
    by (simp add: r split_path_append split_path_single split_path_nonempty butlast_append)
qed

lemma resolve_append:
  "a \<noteq> [] \<Longrightarrow> resolve wd (a @ Separator # b) = foldl walk_step (resolve wd a) (split_path b)"
  by (simp add: resolve_def rooted_append split_path_append)

lemma last_element_split:
  assumes "a \<noteq> []"
  shows "\<exists>A. a @ Separator # r = A @ Separator # last (split_path r) \<and> A \<noteq> []
           \<and> resolve wd A = foldl walk_step (resolve wd a) (butlast (split_path r))"
proof (cases "Separator \<in> set r")
  case False
  then show ?thesis using assms by (intro exI [of _ a]) (simp add: split_path_single)
next
  case True
  then obtain r1 r2 where r: "r = r1 @ Separator # r2" and r2: "Separator \<notin> set r2"
    by (meson split_list_last)
  show ?thesis
    using assms r2
    by (intro exI [of _ "a @ Separator # r1"])
       (simp add: r split_path_append split_path_single split_path_nonempty butlast_append
          resolve_append)
qed

lemma last_split_no_sep: "Separator \<notin> set (last (split_path r))"
  using split_path_no_sep [of "last (split_path r)" r] split_path_nonempty [of r]
  by simp

lemma ordinary_json: "Separator \<notin> set s \<Longrightarrow> ordinary (s @ ''.json'')"
  by (auto simp: ordinary_def Separator_def append_eq_Cons_conv)

lemma Join2: "c \<noteq> [] \<Longrightarrow> Join [a, c] = Clean (if a = [] then c else a @ Separator # c)"
  by (simp add: Join_def)

lemma Join2_nonempty: "c \<noteq> [] \<Longrightarrow> Join [a, c] \<noteq> []"
  by (simp add: Join2 Clean_nonempty)

lemma Join2': "a \<noteq> [] \<Longrightarrow> Join [a, c] = Clean (a @ Separator # c)"
  by (simp add: Join_def)

lemma Join3:
  "c \<noteq> [] \<Longrightarrow> Join [a, c, r] = Clean ((if a = [] then c else a @ Separator # c) @ Separator # r)"
  by (simp add: Join_def)

lemma resolve_Join2: "c \<noteq> [] \<Longrightarrow> resolve wd (Join [a, c]) = resolve wd (if a = [] then c else a @ Separator # c)"
  by (simp add: Join2 resolve_Clean)

lemma final_paths:
  fixes d :: Driver and collection resource :: string
  assumes "collection \<noteq> []"
  defines "fnl \<equiv> Join [Join [dir d, collection], resource @ ''.json'']"
  defines "t \<equiv> last (split_path resource) @ ''.json''"
  shows "fnl \<noteq> []"
    and "resolve wd fnl = record_dir wd d collection resource @ [t]"
    and "resolve wd (fnl @ ''.tmp'') = record_dir wd d collection resource @ [t @ ''.tmp'']"
proof -
  let ?dir1 = "Join [dir d, collection]"
  have d1: "?dir1 \<noteq> []" using assms(1) by (rule Join2_nonempty)
  have t: "ordinary t" unfolding t_def by (rule ordinary_json) (rule last_split_no_sep)
  have tt: "ordinary (t @ ''.tmp'')" using t by (rule ordinary_append) (simp add: Separator_def)
  have l: "last (split_path (resource @ ''.json'')) = t"
    and b: "butlast (split_path (resource @ ''.json'')) = butlast (split_path resource)"
    by (simp_all add: split_path_snoc_chars Separator_def t_def)
  obtain A where A: "?dir1 @ Separator # resource @ ''.json'' = A @ Separator # t" "A \<noteq> []"
    "resolve wd A = record_dir wd d collection resource"
    using last_element_split [OF d1, of "resource @ ''.json''" wd] l b
    by (auto simp: record_dir_def)
  have f: "fnl = Clean (A @ Separator # t)"
    unfolding fnl_def using d1 A(1) by (simp add: Join2')
  show "fnl \<noteq> []" by (simp add: f Clean_nonempty)
  show "resolve wd fnl = record_dir wd d collection resource @ [t]"
    using A(2,3) t by (simp add: f resolve_Clean resolve_child)
  have "fnl @ ''.tmp'' = Clean (A @ Separator # t @ ''.tmp'')"
    unfolding f using A(2) t by (rule Clean_child_append) (simp add: Separator_def)
  then show "resolve wd (fnl @ ''.tmp'') = record_dir wd d collection resource @ [t @ ''.tmp'']"
    using A(2,3) tt resolve_child [of A "t @ ''.tmp''" wd] by (simp add: resolve_Clean)
qed

lemma record_paths:
  fixes d :: Driver and collection resource :: string
  assumes "collection \<noteq> []" and "ordinary (last (split_path resource))"
  defines "record \<equiv> Join [dir d, collection, resource]"
  shows "record \<noteq> []"
    and "resolve wd record = record_dir wd d collection resource @ [last (split_path resource)]"
    and "resolve wd (record @ ''.json'') =
           record_dir wd d collection resource @ [last (split_path resource) @ ''.json'']"
proof -
  let ?J = "if dir d = [] then collection else dir d @ Separator # collection"
  let ?l = "last (split_path resource)"
  have J: "?J \<noteq> []" using assms(1) by simp
  have rJ: "resolve wd ?J = resolve wd (Join [dir d, collection])"
    using assms(1) by (simp add: resolve_Join2)
  obtain A where A: "?J @ Separator # resource = A @ Separator # ?l" "A \<noteq> []"
    "resolve wd A = record_dir wd d collection resource"
    using last_element_split [OF J, of resource wd] rJ
    by (auto simp: record_dir_def)
  have r: "record = Clean (A @ Separator # ?l)"
    unfolding record_def using assms(1) A(1) by (simp add: Join3)
  have lj: "ordinary (?l @ ''.json'')" by (rule ordinary_json) (rule last_split_no_sep)
  show "record \<noteq> []" by (simp add: r Clean_nonempty)
  show "resolve wd record = record_dir wd d collection resource @ [?l]"
    using A(2,3) assms(2) by (simp add: r resolve_Clean resolve_child)
  have "record @ ''.json'' = Clean (A @ Separator # ?l @ ''.json'')"
    unfolding r using A(2) assms(2) by (rule Clean_child_append) (simp add: Separator_def)
  then show "resolve wd (record @ ''.json'') = record_dir wd d collection resource @ [?l @ ''.json'']"
    using A(2,3) lj resolve_child [of A "?l @ ''.json''" wd] by (simp add: resolve_Clean)
qed









section \<open>The tree of the file system\<close>

lemma is_dir_Nil: "is_dir t [] = (case t of Dir r es \<Rightarrow> True | File b \<Rightarrow> False)"
  by (simp add: is_dir_def split: node.splits)

lemma is_dir_Cons:
  "is_dir t (s # q) = (case t of File b \<Rightarrow> False
     | Dir r es \<Rightarrow> (case map_of es s of None \<Rightarrow> False | Some ch \<Rightarrow> is_dir ch q))"
  by (simp add: is_dir_def split: node.splits option.splits)

lemma is_dir_File: "is_dir (File c) p = False"
  by (cases p) (simp_all add: is_dir_def)

lemma map_add_fresh [simp]:
  "map_of es s = None \<Longrightarrow> ([s \<mapsto> n] ++ map_of es) k = (if k = s then Some n else map_of es k)"
  by (auto simp: map_add_def split: option.splits)

lemma lookup_put_same:
  "is_dir t p \<Longrightarrow> node_lookup (node_put t (p @ [s]) n) (p @ [s] @ rest) = node_lookup n rest"
proof (induction p arbitrary: t)
  case Nil
  then show ?case
    by (cases t) (auto simp: is_dir_Nil map_add_fresh update_conv' split: option.splits)
next
  case (Cons a p)
  then show ?case
    by (cases t) (auto simp: is_dir_Cons update_conv' split: option.splits)
qed


lemma lookup_del_other:
  "s \<noteq> s' \<Longrightarrow> node_lookup (node_del t (p @ [s])) (p @ s' # rest) = node_lookup t (p @ s' # rest)"
proof (induction p arbitrary: t)
  case Nil
  then show ?case
    by (cases t) (auto simp: delete_conv' split: option.splits)
next
  case (Cons a p)
  then show ?case
    by (cases t) (auto simp: update_conv' split: option.splits)
qed

lemma lookup_del_same:
  "node_lookup t (p @ [s]) = Inr n \<Longrightarrow> node_lookup (node_del t (p @ [s])) (p @ [s] @ rest) = Inl ENOENT"
proof (induction p arbitrary: t)
  case Nil
  then show ?case
    by (cases t) (auto simp: delete_conv' split: option.splits)
next
  case (Cons a p)
  then show ?case
    by (cases t) (auto simp: update_conv' split: option.splits)
qed

lemma is_dir_del_file:
  "node_lookup t q = Inr (File c) \<Longrightarrow> is_dir t p \<Longrightarrow> is_dir (node_del t q) p"
proof (induction q arbitrary: t p)
  case Nil
  then show ?case by simp
next
  case (Cons s q)
  show ?case
  proof (cases p)
    case Nil
    with Cons.prems show ?thesis
      by (cases t) (auto simp: is_dir_Nil split: option.splits)
  next
    case (Cons s' p')
    with Cons.prems Cons.IH show ?thesis
      by (cases t) (auto simp: is_dir_Cons is_dir_Nil is_dir_File update_conv' delete_conv' split: option.splits)
  qed
qed


lemma lookup_parent_is_dir: "node_lookup t (p @ [s]) = Inr n \<Longrightarrow> is_dir t p"
proof (induction p arbitrary: t)
  case Nil
  then show ?case by (cases t) (auto simp: is_dir_Nil)
next
  case (Cons a p)
  then show ?case by (cases t) (auto simp: is_dir_Cons split: option.splits)
qed

lemma lookup_child_of_dir: "is_dir t p \<Longrightarrow> node_lookup t (p @ [s]) = Inl e \<Longrightarrow> e = ENOENT"
proof (induction p arbitrary: t)
  case Nil
  then show ?case by (cases t) (auto simp: is_dir_Nil split: option.splits)
next
  case (Cons a p)
  then show ?case by (cases t) (auto simp: is_dir_Cons split: option.splits)
qed







section \<open>The file calls of Write\<close>

lemma os_MkdirAll_ok:
  "os_MkdirAll fs p = (None, fs1) \<Longrightarrow>
   cwd fs1 = cwd fs \<and> node_mkdir_all (tree fs) (resolve (cwd fs) p) = Some (tree fs1)"
  by (auto simp: os_MkdirAll_def split: if_splits option.splits)


lemma os_WriteFile_ok:
  assumes "os_WriteFile fs p b = (None, fs2)" and "resolve (cwd fs) p = P @ [t]"
  shows "cwd fs2 = cwd fs" and "tree fs2 = node_put (tree fs) (P @ [t]) (File b)"
    and "is_dir (tree fs) P"
    and "\<forall>r es. node_lookup (tree fs) (P @ [t]) \<noteq> Inr (Dir r es)"
proof -
  from assms show "cwd fs2 = cwd fs" "tree fs2 = node_put (tree fs) (P @ [t]) (File b)"
    by (auto simp: os_WriteFile_def Let_def split: sum.splits node.splits if_splits option.splits)
  from assms show "is_dir (tree fs) P"
    by (auto simp: os_WriteFile_def Let_def fs_lookup_def parent_is_dir_def is_dir_def
        dest: lookup_parent_is_dir
        split: sum.splits node.splits if_splits option.splits)
  from assms show "\<forall>r es. node_lookup (tree fs) (P @ [t]) \<noteq> Inr (Dir r es)"
    by (auto simp: os_WriteFile_def Let_def fs_lookup_def
        split: sum.splits node.splits if_splits option.splits)
qed



lemma os_Rename_file_ok:
  assumes "os_Rename fs old new = (None, fs3)"
    and "node_lookup (tree fs) (P @ [t']) = Inr (File c)"
    and "old \<noteq> []" and "resolve (cwd fs) old = P @ [t']"
    and "resolve (cwd fs) new = P @ [t]" and "t \<noteq> t'"
  shows "cwd fs3 = cwd fs"
    and "tree fs3 = node_put (node_del (tree fs) (P @ [t'])) (P @ [t]) (File c)"
  using assms
  by (auto simp: os_Rename_def Let_def fs_lookup_def
      split: sum.splits node.splits if_splits option.splits)

lemma rename_file_lookup:
  assumes "node_lookup t (P @ [t']) = Inr (File c)"
  shows "node_lookup (node_put (node_del t (P @ [t'])) (P @ [s]) (File c)) (P @ [s]) = Inr (File c)"
proof -
  have "is_dir t P" using assms by (rule lookup_parent_is_dir)
  with assms have "is_dir (node_del t (P @ [t'])) P" by (rule is_dir_del_file)
  then show ?thesis using lookup_put_same [of _ P s "File c" "[]"] by simp
qed

lemma getOrCreateMutex_dir: "dir (getOrCreateMutex d c) = dir d"
  by (simp add: getOrCreateMutex_def)

lemma Write_steps:
  assumes "Write J d fs collection resource v = (res, d', fs')"
    and "collection \<noteq> []" and "resource \<noteq> []"
  defines "dir1 \<equiv> Join [dir d, collection]"
  defines "fnlPath \<equiv> Join [dir1, resource @ ''.json'']"
  shows "d' = getOrCreateMutex d collection"
    and "(\<exists>e. res = Some e \<and> os_MkdirAll fs dir1 = (Some e, fs'))
       \<or> (\<exists>fs1. os_MkdirAll fs dir1 = (None, fs1)
            \<and> ((\<exists>e. res = Some e \<and> MarshalIndent J v [] [CHR 0x09] = Inl e \<and> fs' = fs1)
              \<or> (\<exists>b. MarshalIndent J v [] [CHR 0x09] = Inr b
                   \<and> ((\<exists>e. res = Some e
                          \<and> os_WriteFile fs1 (fnlPath @ ''.tmp'') (b @ [CHR 0x0A]) = (Some e, fs'))
                     \<or> (\<exists>fs2. os_WriteFile fs1 (fnlPath @ ''.tmp'') (b @ [CHR 0x0A]) = (None, fs2)
                          \<and> os_Rename fs2 (fnlPath @ ''.tmp'') fnlPath = (res, fs'))))))"
  using assms(1,2,3) unfolding dir1_def fnlPath_def
  by (auto simp: Write_def validateCollectionResource_def Let_def
      split: prod.splits option.splits sum.splits)

lemma Write_nonempty:
  "Write J d fs collection resource v = (None, d', fs') \<Longrightarrow> collection \<noteq> [] \<and> resource \<noteq> []"
  by (auto simp: Write_def validateCollectionResource_def split: if_splits)

lemma Write_success:
  assumes "Write J d fs collection resource v = (None, d', fs')"
  shows "\<exists>b. MarshalIndent J v [] [CHR 0x09] = Inr b \<and> cwd fs' = cwd fs
           \<and> node_lookup (tree fs')
                (record_dir (cwd fs) d collection resource @ [last (split_path resource) @ ''.json''])
              = Inr (File (b @ [CHR 0x0A]))"
proof -
  let ?P = "record_dir (cwd fs) d collection resource"
  let ?t = "last (split_path resource) @ ''.json''"
  let ?fnl = "Join [Join [dir d, collection], resource @ ''.json'']"
  have ne: "collection \<noteq> []" "resource \<noteq> []" using assms by (auto dest: Write_nonempty)
  from Write_steps(2) [OF assms ne]
  obtain fs1 b fs2 where mk: "os_MkdirAll fs (Join [dir d, collection]) = (None, fs1)"
    and mi: "MarshalIndent J v [] [CHR 0x09] = Inr b"
    and wf: "os_WriteFile fs1 (?fnl @ ''.tmp'') (b @ [CHR 0x0A]) = (None, fs2)"
    and rn: "os_Rename fs2 (?fnl @ ''.tmp'') ?fnl = (None, fs')"
    by auto
  have c1: "cwd fs1 = cwd fs" using mk by (simp add: os_MkdirAll_ok)
  have rt: "resolve (cwd fs1) (?fnl @ ''.tmp'') = ?P @ [?t @ ''.tmp'']"
    and rf: "resolve (cwd fs1) ?fnl = ?P @ [?t]"
    using final_paths(2,3) [where d = d and resource = resource and wd = "cwd fs", OF ne(1)] by (simp_all add: c1)
  have c2: "cwd fs2 = cwd fs1"
    and t2: "tree fs2 = node_put (tree fs1) (?P @ [?t @ ''.tmp'']) (File (b @ [CHR 0x0A]))"
    and d1: "is_dir (tree fs1) ?P"
    using os_WriteFile_ok [OF wf rt] by simp_all
  have l2: "node_lookup (tree fs2) (?P @ [?t @ ''.tmp'']) = Inr (File (b @ [CHR 0x0A]))"
    using lookup_put_same [OF d1, of "?t @ ''.tmp''" "File (b @ [CHR 0x0A])" "[]"] by (simp add: t2)
  have "cwd fs' = cwd fs2"
    and "tree fs' = node_put (node_del (tree fs2) (?P @ [?t @ ''.tmp''])) (?P @ [?t]) (File (b @ [CHR 0x0A]))"
    using os_Rename_file_ok [OF rn l2, of ?t] rt rf by (simp_all add: c2)
  then show ?thesis using mi c1 c2 rename_file_lookup [OF l2, of ?t] by simp
qed

lemma endsWithDot_json: "endsWithDot (x @ ''.json'') = False"
  by (simp add: endsWithDot_def)

section \<open>Validation\<close>

text \<open>
  C4. With an empty collection name \<open>Write\<close>, \<open>Read\<close> and \<open>Delete\<close> return the
  missing-collection error of \<open>validateCollectionResource\<close>, and with a collection name
  and an empty resource name its missing-resource error. The result is the same for
  every file system, and \<open>Write\<close> and \<open>Delete\<close> return the driver and the file system
  they were given: nothing is read and nothing is changed.
\<close>

theorem validation_precedes_filesystem:
  "(Write J d fs [] resource v =
      (Some (ErrorString ''Missing Collection - no place to save the records!''), d, fs)
    \<and> Read J d fs [] resource v =
      Inl (ErrorString ''Missing Collection - no place to save the records!'')
    \<and> Delete d fs [] resource =
      (Some (ErrorString ''Missing Collection - no place to save the records!''), d, fs))
   \<and> (collection \<noteq> [] \<longrightarrow>
      Write J d fs collection [] v =
        (Some (ErrorString ''Missing Resource - unable to save record (No Name)!''), d, fs)
      \<and> Read J d fs collection [] v =
        Inl (ErrorString ''Missing Resource - unable to save record (No Name)!'')
      \<and> Delete d fs collection [] =
        (Some (ErrorString ''Missing Resource - unable to save record (No Name)!''), d, fs))"
  by (simp add: Write_def Read_def Delete_def validateCollectionResource_def)

theorem validation_precedes_filesystem_witness:
  "''user'' \<noteq> []
   \<and> Write jvalue_json sample_driver sample_store [] ''alice'' alice =
       (Some (ErrorString ''Missing Collection - no place to save the records!''),
        sample_driver, sample_store)
   \<and> Write jvalue_json sample_driver sample_store ''user'' [] alice =
       (Some (ErrorString ''Missing Resource - unable to save record (No Name)!''),
        sample_driver, sample_store)
   \<and> Read jvalue_json sample_driver sample_store ''user'' [] alice =
       Inl (ErrorString ''Missing Resource - unable to save record (No Name)!'')
   \<and> Delete sample_driver sample_store ''user'' [] =
       (Some (ErrorString ''Missing Resource - unable to save record (No Name)!''),
        sample_driver, sample_store)"
  using validation_precedes_filesystem
    [of jvalue_json sample_driver sample_store "''alice''" alice "''user''"]
  by simp

section \<open>How Read finds a record\<close>




section \<open>ReadAll\<close>




text \<open>
  C6. The specification asks \<open>ReadAll\<close> to return the error of a listing that fails
  for another reason than a missing directory. The code does not: for a collection
  directory without read permission \<open>stat\<close> succeeds, \<^verbatim>\<open>os.ReadDir\<close> fails with
  \<open>EACCES\<close>, and \<open>ReadAll\<close> returns an empty list and no error.
\<close>

theorem readAll_ignores_listing_error:
  "stat unreadable_store (Join [dir sample_driver, ''user'']) = Inr (FileInfo ModeDir)
   \<and> os_ReadDir unreadable_store (Join [dir sample_driver, ''user''])
       = Inl (PathError ''open'' EACCES)
   \<and> ReadAll sample_driver unreadable_store ''user'' = Inr []"
  by code_simp

section \<open>Write and Read\<close>

text \<open>
  C3, as amended. When \<open>Write\<close> returns no error, the file at the final path holds the
  bytes that \<open>MarshalIndent\<close> returns for the value with an empty prefix and one tab
  character as the indent, followed by one newline.
\<close>

theorem write_stores_tab_indented_json:
  assumes "Write J d fs collection resource v = (None, d', fs')"
  shows "\<exists>b. MarshalIndent J v [] [CHR 0x09] = Inr b
           \<and> os_ReadFile fs' (Join [Join [dir d, collection], resource @ ''.json''])
               = Inr (b @ [CHR 0x0A])"
proof -
  have ne: "collection \<noteq> []" using assms by (auto dest: Write_nonempty)
  from Write_success [OF assms] final_paths(1) [where d = d and resource = resource, OF ne]
    final_paths(2) [where d = d and resource = resource and wd = "cwd fs", OF ne]
  show ?thesis by (auto simp: os_ReadFile_def fs_lookup_def)
qed

text \<open>The record of \<open>alice\<close> written to the empty store.\<close>

theorem write_stores_tab_indented_json_witness:
  "Write jvalue_json sample_driver empty_store ''user'' ''alice'' alice
     = (None, user_driver, sample_store)
   \<and> MarshalIndent jvalue_json alice [] [CHR 0x09] = Inr (butlast alice_bytes)
   \<and> os_ReadFile sample_store ''data/user/alice.json'' = Inr (butlast alice_bytes @ [CHR 0x0A])"
proof -
  have 1: "Write jvalue_json sample_driver empty_store ''user'' ''alice'' alice
       = (None, user_driver, sample_store)" by code_simp
  have 2: "MarshalIndent jvalue_json alice [] [CHR 0x09] = Inr (butlast alice_bytes)" by code_simp
  have 3: "Join [Join [dir sample_driver, ''user''], ''alice'' @ ''.json''] = ''data/user/alice.json''"
    by code_simp
  show ?thesis using write_stores_tab_indented_json [OF 1] 1 2 3 by simp
qed

text \<open>
  The property as the specification states it, with an indent of two spaces, fails
  for the record of \<open>alice\<close>: the stored bytes are not the serialization with two
  spaces followed by a newline.
\<close>

theorem write_stores_two_spaces_counterexample:
  "Write jvalue_json sample_driver empty_store ''user'' ''alice'' alice
     = (None, user_driver, sample_store)
   \<and> os_ReadFile sample_store ''data/user/alice.json'' = Inr alice_bytes
   \<and> MarshalIndent jvalue_json alice [] ''  '' = Inr alice_two_spaces
   \<and> alice_bytes \<noteq> alice_two_spaces @ [CHR 0x0A]"
  by code_simp

text \<open>
  C1, as amended. For a resource name whose last path element is ordinary and a value
  that \<open>Unmarshal\<close> decodes back from the bytes \<open>MarshalIndent\<close> gives for it followed by
  a newline: when \<open>Write\<close> returns no error, \<open>Read\<close> of the same collection and resource
  in the resulting file system returns the value written.
\<close>

theorem write_then_read:
  assumes "ordinary (last (split_path resource))"
    and "Write J d fs collection resource v = (None, d', fs')"
    and "MarshalIndent J v [] [CHR 0x09] = Inr b"
    and "Unmarshal J (b @ [CHR 0x0A]) out = Inr v"
  shows "Read J d' fs' collection resource out = Inr v"
proof -
  let ?P = "record_dir (cwd fs) d collection resource"
  let ?l = "last (split_path resource)"
  let ?bare = "Join [dir d, collection, resource]"
  have ne: "collection \<noteq> []" "resource \<noteq> []" using assms(2) by (auto dest: Write_nonempty)
  have d': "dir d' = dir d"
    using Write_steps(1) [OF assms(2) ne] by (simp add: getOrCreateMutex_dir)
  from Write_success [OF assms(2)] assms(3)
  have cw: "cwd fs' = cwd fs"
    and f: "node_lookup (tree fs') (?P @ [?l @ ''.json'']) = Inr (File (b @ [CHR 0x0A]))"
    by auto
  note rp1 = record_paths(1) [where d = d, OF ne(1) assms(1)]
  note rp = record_paths(2,3) [where d = d and wd = "cwd fs", OF ne(1) assms(1)]
  have js: "fs_lookup fs' (?bare @ ''.json'') = Inr (File (b @ [CHR 0x0A]))"
    using f rp(2) by (simp add: fs_lookup_def cw)
  have "is_dir (tree fs') ?P" using f by (rule lookup_parent_is_dir)
  then have "\<And>e. fs_lookup fs' ?bare = Inl e \<Longrightarrow> e = ENOENT"
    using rp1 rp(1) by (auto simp: fs_lookup_def cw dest: lookup_child_of_dir)
  then have st: "\<exists>fi. stat fs' ?bare = Inr fi"
    using js by (auto simp: stat_def os_Stat_def split: sum.splits)
  show ?thesis
    using ne st js assms(4)
    by (auto simp: Read_def validateCollectionResource_def Let_def d' os_ReadFile_def)
qed

text \<open>The record of \<open>alice\<close> written to the empty store and read back.\<close>

theorem write_then_read_witness:
  "ordinary (last (split_path ''alice''))
   \<and> Write jvalue_json sample_driver empty_store ''user'' ''alice'' alice
       = (None, user_driver, sample_store)
   \<and> MarshalIndent jvalue_json alice [] [CHR 0x09] = Inr (butlast alice_bytes)
   \<and> Unmarshal jvalue_json (butlast alice_bytes @ [CHR 0x0A]) JNull = Inr alice
   \<and> Read jvalue_json user_driver sample_store ''user'' ''alice'' JNull = Inr alice"
proof -
  have 1: "ordinary (last (split_path ''alice''))" by code_simp
  have 2: "Write jvalue_json sample_driver empty_store ''user'' ''alice'' alice
       = (None, user_driver, sample_store)" by code_simp
  have 3: "MarshalIndent jvalue_json alice [] [CHR 0x09] = Inr (butlast alice_bytes)" by code_simp
  have 4: "Unmarshal jvalue_json (butlast alice_bytes @ [CHR 0x0A]) JNull = Inr alice" by code_simp
  show ?thesis using write_then_read [OF 1 2 3 4] 1 2 3 4 by simp
qed

text \<open>
  The property as the specification states it fails for the resource name \<^verbatim>\<open>.\<close>:
  \<open>Write\<close> stores the file \<^verbatim>\<open>data/user/..json\<close>, and \<open>Read\<close> finds the directory
  \<^verbatim>\<open>data/user\<close> and then fails to open \<^verbatim>\<open>data/user.json\<close>. It also fails where \<open>Write\<close>
  itself fails, here on a store in which the final path is a directory.
\<close>

theorem write_then_read_dot_counterexample:
  "Write jvalue_json sample_driver empty_store ''user'' ''.'' alice = (None, user_driver, dot_store)
   \<and> jvalue_MarshalIndent alice [] [CHR 0x09] = Inr (butlast alice_bytes)
   \<and> jvalue_Unmarshal (butlast alice_bytes @ [CHR 0x0A]) JNull = Inr alice
   \<and> Read jvalue_json user_driver dot_store ''user'' ''.'' JNull = Inl (PathError ''open'' ENOENT)
   \<and> Write jvalue_json sample_driver suffixed_dir_store ''user'' ''alice'' alice
       = (Some (LinkError ''rename'' EEXIST), user_driver, suffixed_dir_tmp_store)"
  by code_simp




section \<open>Delete\<close>


lemma os_RemoveAll_ok:
  assumes "os_RemoveAll fs p = (None, fs')" and "fs_lookup fs p = Inr n"
  shows "resolve (cwd fs) p \<noteq> [] \<and> fs' = fs\<lparr>tree := node_del (tree fs) (resolve (cwd fs) p)\<rparr>"
  using assms by (auto simp: os_RemoveAll_def fs_lookup_def Let_def split: if_splits option.splits)

lemma Delete_nonempty:
  "Delete d fs collection resource = (None, d', fs') \<Longrightarrow> collection \<noteq> [] \<and> resource \<noteq> []"
  by (auto simp: Delete_def validateCollectionResource_def split: if_splits)

lemma lookup_del_below:
  assumes "q \<noteq> []" and "node_lookup t q = Inr n"
  shows "node_lookup (node_del t q) (q @ rest) = Inl ENOENT"
proof -
  from assms(1) obtain p s where q: "q = p @ [s]" by (metis append_butlast_last_id)
  show ?thesis using lookup_del_same [of t p s n rest] assms(2) by (simp add: q)
qed

lemma lookup_del_sibling:
  assumes "q \<noteq> []" and "s \<noteq> last q"
  shows "node_lookup (node_del t q) (butlast q @ s # rest) = node_lookup t (butlast q @ s # rest)"
proof -
  from assms(1) obtain p s0 where q: "q = p @ [s0]" by (metis append_butlast_last_id)
  show ?thesis using lookup_del_other [of s0 s t p rest] assms(2) by (simp add: q)
qed



text \<open>
  C10. When the path \<^verbatim>\<open><dir>/<collection>/<resource>\<close> that \<open>Delete\<close> computes is a regular
  file and the same path with \<^verbatim>\<open>.json\<close> does not exist, \<open>Delete\<close> returns what
  \<^verbatim>\<open>os.RemoveAll\<close> returns for the path with the suffix, which is no error, and the file
  system is the one it was given: the file without the suffix stays.
\<close>

theorem delete_bare_file_removes_nothing:
  assumes "collection \<noteq> []" and "resource \<noteq> []"
    and "bare = Join [dir d, Join [collection, resource]]"
    and "fs_lookup fs bare = Inr (File b)"
    and "fs_lookup fs (bare @ ''.json'') = Inl ENOENT"
  shows "Delete d fs collection resource =
           (fst (os_RemoveAll fs (bare @ ''.json'')), getOrCreateMutex d collection,
            snd (os_RemoveAll fs (bare @ ''.json'')))
         \<and> Delete d fs collection resource = (None, getOrCreateMutex d collection, fs)"
proof -
  have st: "stat fs bare = Inr (FileInfo ModeRegular)"
    using assms(4) by (simp add: stat_def os_Stat_def)
  have rm: "os_RemoveAll fs (bare @ ''.json'') = (None, fs)"
    using assms(5) by (simp add: os_RemoveAll_def endsWithDot_json)
  show ?thesis
    using assms(1,2) st rm
    by (simp add: Delete_def validateCollectionResource_def Let_def assms(3) [symmetric])
qed

theorem delete_bare_file_removes_nothing_witness:
  "Delete sample_driver bare_file_store ''user'' ''alice'' =
     (None, \<lparr>dir = ''data'', mutexes = [''user'']\<rparr>, bare_file_store)
   \<and> fs_lookup bare_file_store ''data/user/alice'' = Inr (File ''x'')
   \<and> fs_lookup bare_file_store ''data/user/alice.json'' = Inl ENOENT"
proof -
  have j: "Join [dir sample_driver, Join [''user'', ''alice'']] = ''data/user/alice''"
    by code_simp
  have 1: "fs_lookup bare_file_store ''data/user/alice'' = Inr (File ''x'')"
    by code_simp
  have 2: "fs_lookup bare_file_store (''data/user/alice'' @ ''.json'') = Inl ENOENT"
    by code_simp
  have m: "getOrCreateMutex sample_driver ''user'' = \<lparr>dir = ''data'', mutexes = [''user'']\<rparr>"
    by code_simp
  show ?thesis
    using delete_bare_file_removes_nothing
      [of "''user''" "''alice''" "''data/user/alice''" sample_driver bare_file_store "''x''",
        THEN conjunct2] j 1 2 m
    by simp
qed

text \<open>
  C8, as amended. When the path \<^verbatim>\<open><dir>/<collection>/<resource>\<close> that \<open>Delete\<close> computes,
  without the suffix, is a directory and \<open>Delete\<close> returns no error, then nothing exists
  any more at that path or below it, and the other entries of its parent directory
  are what they were.
\<close>

theorem delete_directory_removes_it:
  assumes "bare = Join [dir d, Join [collection, resource]]"
    and "os_Stat fs bare = Inr (FileInfo ModeDir)"
    and "Delete d fs collection resource = (None, d', fs')"
  shows "(\<forall>rest. node_lookup (tree fs') (resolve (cwd fs) bare @ rest) = Inl ENOENT)
       \<and> (\<forall>s rest. s \<noteq> last (resolve (cwd fs) bare) \<longrightarrow>
             node_lookup (tree fs') (butlast (resolve (cwd fs) bare) @ s # rest)
               = node_lookup (tree fs) (butlast (resolve (cwd fs) bare) @ s # rest))
       \<and> cwd fs' = cwd fs"
proof -
  have ne: "collection \<noteq> []" "resource \<noteq> []" using assms(3) by (auto dest: Delete_nonempty)
  have st: "stat fs bare = Inr (FileInfo ModeDir)" using assms(2) by (simp add: stat_def)
  have rm: "os_RemoveAll fs bare = (None, fs')"
    using assms(3) ne st
    by (auto simp: Delete_def validateCollectionResource_def Let_def assms(1) [symmetric]
        split: prod.splits)
  from assms(2) obtain n where n: "fs_lookup fs bare = Inr n"
    by (auto simp: os_Stat_def split: sum.splits)
  then have ln: "node_lookup (tree fs) (resolve (cwd fs) bare) = Inr n"
    by (auto simp: fs_lookup_def split: if_splits)
  from os_RemoveAll_ok [OF rm n]
  have q: "resolve (cwd fs) bare \<noteq> []"
    and fs': "fs' = fs\<lparr>tree := node_del (tree fs) (resolve (cwd fs) bare)\<rparr>" by simp_all
  show ?thesis
    using lookup_del_below [OF q ln] lookup_del_sibling [OF q]
    by (simp add: fs')
qed

text \<open>The resource name \<^verbatim>\<open>.\<close> points at the directory of the collection \<^verbatim>\<open>user\<close>.\<close>

theorem delete_directory_removes_it_witness:
  "os_Stat two_records_store ''data/user'' = Inr (FileInfo ModeDir)
   \<and> Delete sample_driver two_records_store ''user'' ''.'' = (None, user_driver, empty_store)
   \<and> node_lookup (tree empty_store) [''data'', ''user''] = Inl ENOENT
   \<and> node_lookup (tree empty_store) [''data'', ''user'', ''alice.json''] = Inl ENOENT"
proof -
  have j: "''data/user'' = Join [dir sample_driver, Join [''user'', ''.'']]" by code_simp
  have 1: "os_Stat two_records_store ''data/user'' = Inr (FileInfo ModeDir)" by code_simp
  have 2: "Delete sample_driver two_records_store ''user'' ''.'' = (None, user_driver, empty_store)"
    by code_simp
  have r: "resolve (cwd two_records_store) ''data/user'' = [''data'', ''user'']" by code_simp
  from delete_directory_removes_it [OF j 1 2]
  have "\<forall>rest. node_lookup (tree empty_store) ([''data'', ''user''] @ rest) = Inl ENOENT"
    by (simp add: r)
  from this [rule_format, of "[]"] this [rule_format, of "[''alice.json'']"] 1 2
  show ?thesis by simp
qed

text \<open>
  The property as the specification states it fails when the target is found with
  the suffix: \<open>stat\<close> reports
  the directory \<^verbatim>\<open>data/user/alice.json\<close>, \<open>Delete\<close> calls \<^verbatim>\<open>os.RemoveAll\<close> on the missing path
  \<^verbatim>\<open>data/user/alice\<close>, returns no error and removes nothing.
\<close>

theorem delete_suffixed_directory_counterexample:
  "os_Stat suffixed_dir_store ''data/user/alice'' = Inl (PathError ''stat'' ENOENT)
   \<and> os_Stat suffixed_dir_store ''data/user/alice.json'' = Inr (FileInfo ModeDir)
   \<and> stat suffixed_dir_store (Join [dir sample_driver, Join [''user'', ''alice'']])
       = Inr (FileInfo ModeDir)
   \<and> Delete sample_driver suffixed_dir_store ''user'' ''alice''
       = (None, user_driver, suffixed_dir_store)
   \<and> os_ReadFile suffixed_dir_store ''data/user/alice.json/inner'' = Inr ''x''"
  by code_simp




section \<open>The scenario of the specification\<close>

text \<open>
  A store is constructed at \<^verbatim>\<open>./data\<close> of an empty file system, the record of \<open>alice\<close> is
  written to the collection \<^verbatim>\<open>user\<close>, read, listed, deleted and read again.
\<close>

lemma scenario:
  "New \<lparr>tree = Dir True [], cwd = []\<rparr> ''./data'' = (sample_driver, None, empty_store)
   \<and> Write jvalue_json sample_driver empty_store ''user'' ''alice'' alice
       = (None, user_driver, sample_store)
   \<and> Read jvalue_json user_driver sample_store ''user'' ''alice'' JNull = Inr alice
   \<and> ReadAll user_driver sample_store ''user'' = Inr [alice_bytes]
   \<and> Delete user_driver sample_store ''user'' ''alice''
       = (None, user_driver, empty_collection_store)
   \<and> Read jvalue_json user_driver empty_collection_store ''user'' ''alice'' JNull
       = Inl (PathError ''stat'' ENOENT)"
  by code_simp

end
